theory Spec2Isabelle
  imports Main
begin

section \<open>The lookup join node of eKuiper (internal/topo/node/lookup_node.go)\<close>

text \<open>
  A shallow embedding of \<^verbatim>\<open>LookupNode.lookup\<close> and of the receive loop of
  \<^verbatim>\<open>LookupNode.Exec\<close>. The node is single threaded: every effect of the source (the cache,
  the external lookup source, the values broadcast downstream) is a field of an explicit
  state that each function takes and returns. Errors are values; a Go panic is a status of
  its own. Metrics (\<^verbatim>\<open>statManager\<close>) and logging are left out: they feed no decision.
\<close>

subsection \<open>Values, rows and lookup results\<close>

text \<open>
  What \<^verbatim>\<open>ValuerEval.Eval\<close> hands back as \<^verbatim>\<open>interface{}\<close>: nil, or a scalar. The scalars
  covered are integers, strings and booleans.
\<close>

datatype val = VNil | VInt int | VStr string | VBool bool

type_synonym message = "string \<rightharpoonup> val"

text \<open>\<^verbatim>\<open>xsql.Tuple\<close>, the row type; \<^verbatim>\<open>Metadata\<close> is \<open>None\<close> for a nil map.\<close>

record tuple =
  Emitter :: string
  Message :: message
  Metadata :: "message option"
  Timestamp :: int

text \<open>
  \<^verbatim>\<open>api.MessageTuple\<close>, one record of a lookup result: \<^verbatim>\<open>ToMap()\<close>, and \<^verbatim>\<open>AllMeta()\<close> when
  the record also implements \<^verbatim>\<open>api.MetaInfo\<close> (\<open>None\<close> when it does not).
\<close>

record message_tuple =
  ToMap :: message
  AllMeta :: "message option"

text \<open>
  \<^verbatim>\<open>api.SinkTupleList\<close> is an interface with \<^verbatim>\<open>Len()\<close> and \<^verbatim>\<open>RangeOfTuples(f)\<close>. A value of
  it is the list of its records in iteration order; the nil interface value is \<open>None\<close>.
\<close>

type_synonym sink_tuple_list = "message_tuple list option"

datatype join_type = LEFT_JOIN | INNER_JOIN | RIGHT_JOIN | FULL_JOIN | CROSS_JOIN

text \<open>
  \<^verbatim>\<open>xsql.JoinTuple\<close> holds its constituent rows in order.

  Modelled from the spec: \<^verbatim>\<open>JoinTuple.AddTuple\<close> of package xsql is not part of the
  sources at hand; a Joined Tuple is "an ordered pair (or list) of constituent Rows", and
  adding a row puts it after the rows already there.
\<close>

type_synonym join_tuple = "tuple list"

definition AddTuple :: "join_tuple \<Rightarrow> tuple \<Rightarrow> join_tuple" where
  "AddTuple jt t = jt @ [t]"

record window_range =
  windowStart :: int
  windowEnd :: int

record JoinTuples =
  Content :: "join_tuple list"
  WindowRange :: "window_range option"

subsection \<open>Errors and statuses\<close>

datatype error =
    LookupError string          \<comment> \<open>the error returned by the source's \<^verbatim>\<open>Lookup\<close>\<close>
  | InvalidWindowElement string \<comment> \<open>"Invalid window element, must be a tuple row but got ..."\<close>
  | InvalidInputType string     \<comment> \<open>"run lookup node error: invalid input type but got ..."\<close>

text \<open>
  How a call ends: it returns nil (\<open>Ok\<close>), returns an error, or panics. The only panic
  of the code modelled here is the method call on a nil \<^verbatim>\<open>api.SinkTupleList\<close>.
\<close>

datatype status = Ok | Err error | Panic

subsection \<open>The cache (package internal/topo/lookup/cache)\<close>

text \<open>
  Modelled from the spec: the package \<^verbatim>\<open>cache\<close> is not part of the sources at hand. Section
  4.3 of the specification gives its contract: \<^verbatim>\<open>Get(key) -> (result, found)\<close> with found
  false if the key was never set or has expired; \<^verbatim>\<open>Set(key, result)\<close> inserts or
  overwrites, resetting the entry's expiry to now + TTL; an entry set at T expires at
  T + TTL regardless of reads, and no expired entry is ever returned; \<^verbatim>\<open>Close()\<close> releases
  all entries. The clock reading \<open>now\<close> is an argument.

  The node hands \<^verbatim>\<open>CacheMissingKey\<close> to \<^verbatim>\<open>NewCache\<close> (line 90) and calls \<^verbatim>\<open>Set\<close> after every
  successful \<^verbatim>\<open>Lookup\<close> (line 187), so it is \<^verbatim>\<open>Set\<close> that applies the flag: the result is
  stored "even if empty, subject to cacheMissingKeys" (section 4.2, step 3), and with the
  flag false "an empty Lookup Result is simply not cached, forcing a fresh external query
  every time" (sections 4.3 and 8). A result without records, the nil result included, is
  stored only when the flag is true.
\<close>

record Cache =
  items :: "string \<rightharpoonup> (sink_tuple_list \<times> int)"
  expireTime :: int
  cacheMissingKey :: bool

definition NewCache :: "int \<Rightarrow> bool \<Rightarrow> Cache" where
  "NewCache ttl missing = \<lparr>items = Map.empty, expireTime = ttl, cacheMissingKey = missing\<rparr>"

definition Get :: "Cache \<Rightarrow> int \<Rightarrow> string \<Rightarrow> sink_tuple_list option" where
  "Get c now k =
     (case items c k of
        None \<Rightarrow> None
      | Some (r, expiration) \<Rightarrow> if now < expiration then Some r else None)"

definition has_records :: "sink_tuple_list \<Rightarrow> bool" where
  "has_records r = (case r of None \<Rightarrow> False | Some ts \<Rightarrow> ts \<noteq> [])"

definition Set :: "Cache \<Rightarrow> int \<Rightarrow> string \<Rightarrow> sink_tuple_list \<Rightarrow> Cache" where
  "Set c now k r =
     (if has_records r \<or> cacheMissingKey c
      then c\<lparr>items := (items c)(k \<mapsto> (r, now + expireTime c))\<rparr>
      else c)"

definition Close :: "Cache \<Rightarrow> Cache" where
  "Close c = c\<lparr>items := Map.empty\<rparr>"

subsection \<open>The cache key: \<^verbatim>\<open>fmt.Sprintf("%v", cvs)\<close>\<close>

text \<open>
  Go's default format of a \<^verbatim>\<open>[]interface{}\<close>: the elements in their own default
  format, separated by one space, between square brackets. A string prints as itself, an
  integer in decimal, a boolean as true or false, nil as \<^verbatim>\<open><nil>\<close>.
\<close>

function decimal :: "nat \<Rightarrow> string" where
  "decimal n =
     (if n < 10 then [''0123456789'' ! n]
      else decimal (n div 10) @ [''0123456789'' ! (n mod 10)])"
  by pat_completeness auto
termination
  by (relation "measure id") auto

declare decimal.simps [simp del]

fun fmt_v :: "val \<Rightarrow> string" where
  "fmt_v VNil = ''<nil>''"
| "fmt_v (VInt i) = (if i < 0 then ''-'' @ decimal (nat (- i)) else decimal (nat i))"
| "fmt_v (VStr s) = s"
| "fmt_v (VBool b) = (if b then ''true'' else ''false'')"

fun join_space :: "string list \<Rightarrow> string" where
  "join_space [] = []"
| "join_space [s] = s"
| "join_space (s # t # ss) = s @ '' '' @ join_space (t # ss)"

definition Sprintf_v :: "val list \<Rightarrow> string" where
  "Sprintf_v cvs = ''['' @ join_space (map fmt_v cvs) @ '']''"

subsection \<open>The node, its collaborators and its state\<close>

record LookupConf =
  Cache_enabled :: bool    \<comment> \<open>\<^verbatim>\<open>Cache\<close>\<close>
  CacheTTL :: int
  CacheMissingKey :: bool

text \<open>\<^verbatim>\<open>LookupNode\<close>; \<open>'e\<close> is the type of key expressions (\<^verbatim>\<open>ast.Expr\<close>).\<close>

record 'e LookupNode =
  name :: string
  joinType :: join_type
  vals :: "'e list"
  conf :: LookupConf
  fields_n :: "string list"    \<comment> \<open>\<^verbatim>\<open>fields\<close>\<close>
  keys :: "string list"

text \<open>
  What arrives on the input channel and what the type switch in \<^verbatim>\<open>Exec\<close> inspects: a row,
  a window, or anything else (with its printed form). A window element is a \<^verbatim>\<open>ReadonlyRow\<close> that may or may not be a \<^verbatim>\<open>Row\<close>.
\<close>

datatype readonly_row = Row tuple | NotRow string

record WindowTuples =
  Rows :: "readonly_row list"            \<comment> \<open>\<^verbatim>\<open>Content\<close>\<close>
  GetWindowRange :: "window_range option"

datatype data = DRow tuple | DWindow WindowTuples | DOther string

text \<open>
  The collaborators the node is given, as parameters: the expression evaluator
  (\<^verbatim>\<open>ValuerEval.Eval\<close> over the row and the function valuers), the external source's
  \<^verbatim>\<open>Lookup\<close> as a transition of the source's own state \<open>'a\<close> (an error wins over a
  result returned with it, as in the code), and \<^verbatim>\<open>commonIngest\<close> of the embedded
  \<^verbatim>\<open>defaultSinkNode\<close>, which either consumes an item (\<open>None\<close>, processed) or hands its
  data on. Items and data have the one type \<open>data\<close>, both being \<^verbatim>\<open>any\<close> in the code.
\<close>

record ('e, 'a) collaborators =
  Eval :: "tuple \<Rightarrow> 'e \<Rightarrow> val"
  Lookup :: "'a \<Rightarrow> string list \<Rightarrow> string list \<Rightarrow> val list \<Rightarrow> (error + sink_tuple_list) \<times> 'a"
  commonIngest :: "data \<Rightarrow> data option"

text \<open>Calls made to the cache and to the source, recorded in order.\<close>

datatype call =
    CacheGet string
  | CacheSet string sink_tuple_list
  | SourceLookup "string list" "string list" "val list"

datatype emitted = EmitTuples JoinTuples | EmitError error

text \<open>
  The state: the cache \<^verbatim>\<open>c\<close> (\<open>None\<close> is the nil pointer of a node without caching), the
  state of the external source, the record of calls, and what was broadcast downstream.
\<close>

record 'a state =
  cache :: "Cache option"
  source :: 'a
  calls :: "call list"
  outs :: "emitted list"

subsection \<open>\<^verbatim>\<open>LookupNode.lookup\<close>\<close>

text \<open>Lines 164 to 172: the join key vector and the flag \<^verbatim>\<open>hasNil\<close>.\<close>

definition key_values :: "('e, 'a) collaborators \<Rightarrow> 'e LookupNode \<Rightarrow> tuple \<Rightarrow> val list" where
  "key_values x n d = map (Eval x d) (vals n)"

definition hasNil :: "val list \<Rightarrow> bool" where
  "hasNil cvs = (VNil \<in> set cvs)"

text \<open>One call of \<^verbatim>\<open>ns.Lookup(ctx, n.fields, n.keys, cvs)\<close>, recorded.\<close>

definition ns_Lookup ::
  "('e, 'a) collaborators \<Rightarrow> 'e LookupNode \<Rightarrow> val list \<Rightarrow> 'a state \<Rightarrow>
   (error + sink_tuple_list) \<times> 'a state" where
  "ns_Lookup x n cvs w =
     (let (res, s') = Lookup x (source w) (fields_n n) (keys n) cvs
      in (res, w\<lparr>source := s', calls := calls w @ [SourceLookup (fields_n n) (keys n) cvs]\<rparr>))"

text \<open>
  Lines 178 to 192: the values of \<^verbatim>\<open>r\<close> and \<^verbatim>\<open>e\<close> after the cache and the source were asked.
  \<open>Inl e\<close> is a non-nil \<^verbatim>\<open>e\<close>. With a nil among the key values nothing is asked and
  \<^verbatim>\<open>r\<close> keeps its zero value, the nil interface.
\<close>

definition fetch ::
  "('e, 'a) collaborators \<Rightarrow> 'e LookupNode \<Rightarrow> int \<Rightarrow> val list \<Rightarrow> 'a state \<Rightarrow>
   (error + sink_tuple_list) \<times> 'a state" where
  "fetch x n now cvs w =
     (if \<not> hasNil cvs then
        (case cache w of
           Some c \<Rightarrow>
             (let k = Sprintf_v cvs;
                  w1 = w\<lparr>calls := calls w @ [CacheGet k]\<rparr>
              in case Get c now k of
                   Some r \<Rightarrow> (Inr r, w1)
                 | None \<Rightarrow>
                     (case ns_Lookup x n cvs w1 of
                        (Inl e, w2) \<Rightarrow> (Inl e, w2)
                      | (Inr r, w2) \<Rightarrow>
                          (Inr r, w2\<lparr>cache := Some (Set c now k r),
                                     calls := calls w2 @ [CacheSet k r]\<rparr>)))
         | None \<Rightarrow> ns_Lookup x n cvs w)
      else (Inr None, w))"

text \<open>The right-hand row built in the callback of \<^verbatim>\<open>RangeOfTuples\<close> (lines 209 to 218).\<close>

definition right_tuple :: "'e LookupNode \<Rightarrow> int \<Rightarrow> message_tuple \<Rightarrow> tuple" where
  "right_tuple n now t =
     \<lparr>Emitter = name n, Message = ToMap t, Metadata = AllMeta t, Timestamp = now\<rparr>"

text \<open>The callback itself (lines 206 to 222): one merged tuple appended per record.\<close>

definition append_merged ::
  "'e LookupNode \<Rightarrow> int \<Rightarrow> tuple \<Rightarrow> join_tuple list \<Rightarrow> message_tuple \<Rightarrow> join_tuple list" where
  "append_merged n now d content t =
     content @ [AddTuple (AddTuple [] d) (right_tuple n now t)]"

text \<open>
  The whole function. It returns the status, \<^verbatim>\<open>tuples.Content\<close> as it stands when the
  call ends, and the state. \<^verbatim>\<open>r.RangeOfTuples\<close> on the nil interface panics. \<open>now\<close> is the
  clock reading of the call: the cache's clock and \<^verbatim>\<open>timex.GetNowInMilli()\<close>.
\<close>

definition lookup ::
  "('e, 'a) collaborators \<Rightarrow> 'e LookupNode \<Rightarrow> int \<Rightarrow> tuple \<Rightarrow> join_tuple list \<Rightarrow> 'a state \<Rightarrow>
   status \<times> join_tuple list \<times> 'a state" where
  "lookup x n now d tuples w =
     (case fetch x n now (key_values x n d) w of
        (Inl e, w') \<Rightarrow> (Err e, tuples, w')
      | (Inr r, w') \<Rightarrow>
          (let empty = (case r of None \<Rightarrow> False | Some ts \<Rightarrow> length ts = 0)
           in if empty \<and> joinType n \<noteq> LEFT_JOIN then (Ok, tuples, w')
              else
                (let tuples1 = (if empty then tuples @ [AddTuple [] d] else tuples)
                 in case r of
                      None \<Rightarrow> (Panic, tuples1, w')
                    | Some ts \<Rightarrow> (Ok, foldl (append_merged n now d) tuples1 ts, w'))))"

subsection \<open>The receive loop of \<^verbatim>\<open>LookupNode.Exec\<close>\<close>

text \<open>
  Modelled from the spec: \<^verbatim>\<open>WindowTuples.Range\<close> of package xsql is not part of the sources
  at hand. The rows of a window are visited "in window order"; a callback that reports
  a failure ends the visit at once ("abort iteration immediately"), and that failure is
  what \<^verbatim>\<open>Range\<close> returns. The callback's \<^verbatim>\<open>(true, nil)\<close> is \<open>Ok\<close>, its
  \<^verbatim>\<open>(false, err)\<close> is \<open>Err err\<close>; a panic inside it unwinds through \<^verbatim>\<open>Range\<close>.
\<close>

fun Range :: "('r \<Rightarrow> 's \<Rightarrow> status \<times> 's) \<Rightarrow> 'r list \<Rightarrow> 's \<Rightarrow> status \<times> 's" where
  "Range f [] s = (Ok, s)"
| "Range f (r # rs) s =
     (case f r s of
        (Ok, s') \<Rightarrow> Range f rs s'
      | (st, s') \<Rightarrow> (st, s'))"

text \<open>The callback given to \<^verbatim>\<open>d.Range\<close> (lines 125 to 135), over \<^verbatim>\<open>sets.Content\<close> and the state.\<close>

definition window_callback ::
  "('e, 'a) collaborators \<Rightarrow> 'e LookupNode \<Rightarrow> int \<Rightarrow> readonly_row \<Rightarrow>
   join_tuple list \<times> 'a state \<Rightarrow> status \<times> join_tuple list \<times> 'a state" where
  "window_callback x n now r s =
     (case r of
        NotRow shown \<Rightarrow> (Err (InvalidWindowElement shown), s)
      | Row tr \<Rightarrow> lookup x n now tr (fst s) (snd s))"

text \<open>
  Modelled from the spec: \<^verbatim>\<open>Broadcast\<close> of the embedded \<^verbatim>\<open>defaultSinkNode\<close> is not part of
  the sources at hand; it is the "emit operation accepting either a Joined Tuple Batch or
  an error value, consumed by downstream pipeline stages".
\<close>

definition Broadcast :: "emitted \<Rightarrow> 'a state \<Rightarrow> 'a state" where
  "Broadcast v w = w\<lparr>outs := outs w @ [v]\<rparr>"

text \<open>
  One pass through \<^verbatim>\<open>case item := <-n.input\<close> (lines 98 to 149), with the clock reading of
  that pass. \<open>Next\<close>: the loop goes on to its next iteration. \<open>Crash\<close>: a panic leaves the
  loop. In the window branch the batch takes its range from the item as received,
  \<^verbatim>\<open>item.(*xsql.WindowTuples).GetWindowRange()\<close>, a type assertion that panics on an item
  that is no window; the rows come from the data that \<^verbatim>\<open>commonIngest\<close> handed on.
\<close>

datatype step = Next | Crash

definition handle_item ::
  "('e, 'a) collaborators \<Rightarrow> 'e LookupNode \<Rightarrow> int \<Rightarrow> data \<Rightarrow> 'a state \<Rightarrow> step \<times> 'a state" where
  "handle_item x n now item w =
     (case commonIngest x item of
        None \<Rightarrow> (Next, w)
      | Some (DRow d) \<Rightarrow>
          (case lookup x n now d [] w of
             (Err e, sets, w') \<Rightarrow> (Next, Broadcast (EmitError e) w')
           | (Ok, sets, w') \<Rightarrow>
               (Next, Broadcast (EmitTuples \<lparr>Content = sets, WindowRange = None\<rparr>) w')
           | (Panic, sets, w') \<Rightarrow> (Crash, w'))
      | Some (DWindow wt) \<Rightarrow>
          (case item of
             DWindow wi \<Rightarrow>
               (case Range (window_callback x n now) (Rows wt) ([], w) of
                  (Err e, sets, w') \<Rightarrow> (Next, Broadcast (EmitError e) w')
                | (Ok, sets, w') \<Rightarrow>
                    (Next, Broadcast (EmitTuples \<lparr>Content = sets,
                                                   WindowRange = GetWindowRange wi\<rparr>) w')
                | (Panic, sets, w') \<Rightarrow> (Crash, w'))
           | _ \<Rightarrow> (Crash, w))
      | Some (DOther shown) \<Rightarrow> (Next, Broadcast (EmitError (InvalidInputType shown)) w))"

text \<open>
  The \<^verbatim>\<open>for { select { ... } }\<close> loop over what the node is woken by: an item on the input
  channel (with the clock reading of its pass) or the context's cancellation. When the
  wake-ups run out the loop is blocked in its \<^verbatim>\<open>select\<close>.
\<close>

datatype event = Item int data | Done

datatype exit = Blocked | Cancelled | Panicked | AttachFailed string

fun loop ::
  "('e, 'a) collaborators \<Rightarrow> 'e LookupNode \<Rightarrow> event list \<Rightarrow> 'a state \<Rightarrow> exit \<times> 'a state" where
  "loop x n [] w = (Blocked, w)"
| "loop x n (Done # evs) w = (Cancelled, w)"
| "loop x n (Item now item # evs) w =
     (case handle_item x n now item w of
        (Next, w') \<Rightarrow> loop x n evs w'
      | (Crash, w') \<Rightarrow> (Panicked, w'))"

text \<open>
  The body run under \<^verbatim>\<open>infra.SafeRun\<close> (lines 81 to 155): attach to the source, build the
  cache when the configuration asks for one, loop; the deferred \<^verbatim>\<open>c.Close()\<close> runs on
  every way out of the loop (none is taken while the loop is blocked). \<open>attached\<close> is
  what \<^verbatim>\<open>lookup.Attach(n.name)\<close> returned; \<open>init_state\<close> is the state in which the loop is
  entered.
\<close>

definition init_state :: "'e LookupNode \<Rightarrow> 'a \<Rightarrow> 'a state" where
  "init_state n ns =
     \<lparr>cache = (if Cache_enabled (conf n)
               then Some (NewCache (CacheTTL (conf n)) (CacheMissingKey (conf n)))
               else None),
      source = ns, calls = [], outs = []\<rparr>"

definition Exec ::
  "('e, 'a) collaborators \<Rightarrow> 'e LookupNode \<Rightarrow> string + 'a \<Rightarrow> event list \<Rightarrow>
   exit \<times> 'a state option" where
  "Exec x n attached evs =
     (case attached of
        Inl err \<Rightarrow> (AttachFailed err, None)
      | Inr ns \<Rightarrow>
          (let (ex, w) = loop x n evs (init_state n ns)
           in (ex, Some (if ex = Blocked then w
                         else w\<lparr>cache := map_option Close (cache w)\<rparr>))))"

subsection \<open>Notions used to state the properties\<close>

text \<open>
  The Joined Tuples one row contributes for the records \<open>ts\<close> of a non-nil lookup result,
  in the order of \<open>ts\<close>: the row alone under a LEFT join when there is no record, nothing
  under any other join, and else one pair per record.
\<close>

definition joined :: "'e LookupNode \<Rightarrow> int \<Rightarrow> tuple \<Rightarrow> message_tuple list \<Rightarrow> join_tuple list" where
  "joined n now d ts =
     (if ts = [] then (if joinType n = LEFT_JOIN then [[d]] else [])
      else map (\<lambda>t. [d, right_tuple n now t]) ts)"

text \<open>
  What each row of a list is answered, in turn, stated on the collaborators themselves
  after section 4.2 of the specification (steps 2 to 4): nothing is asked for a row with a
  nil key value; with a cache, a live entry answers, and otherwise the source's \<^verbatim>\<open>Lookup\<close>
  does and its result goes to \<^verbatim>\<open>Set\<close>; without a cache the source's \<^verbatim>\<open>Lookup\<close> answers
  every time. An answer of the source is taken as the source gave it, records in its
  order. The cache and the state of the source pass from one row to the next.
\<close>

fun answers ::
  "('e, 'a) collaborators \<Rightarrow> 'e LookupNode \<Rightarrow> int \<Rightarrow> tuple list \<Rightarrow> Cache option \<Rightarrow> 'a \<Rightarrow>
   (error + sink_tuple_list) list" where
  "answers x n now [] c s = []"
| "answers x n now (d # ds) c s =
     (if hasNil (key_values x n d) then Inr None # answers x n now ds c s
      else
        (case c of
           None \<Rightarrow>
             (case Lookup x s (fields_n n) (keys n) (key_values x n d) of
                (res, s') \<Rightarrow> res # answers x n now ds None s')
         | Some ch \<Rightarrow>
             (case Get ch now (Sprintf_v (key_values x n d)) of
                Some r \<Rightarrow> Inr r # answers x n now ds (Some ch) s
              | None \<Rightarrow>
                  (case Lookup x s (fields_n n) (keys n) (key_values x n d) of
                     (Inl e, s') \<Rightarrow> Inl e # answers x n now ds (Some ch) s'
                   | (Inr r, s') \<Rightarrow>
                       Inr r # answers x n now ds
                                 (Some (Set ch now (Sprintf_v (key_values x n d)) r)) s'))))"

text \<open>The number of calls of the source's \<^verbatim>\<open>Lookup\<close> in a record of calls.\<close>

fun is_SourceLookup :: "call \<Rightarrow> bool" where
  "is_SourceLookup (SourceLookup fs ks cvs) = True"
| "is_SourceLookup c = False"

definition source_calls :: "call list \<Rightarrow> nat" where
  "source_calls cs = length (filter is_SourceLookup cs)"

subsection \<open>A concrete node\<close>

text \<open>
  A node with the single key expression \<open>id\<close>, an evaluator that reads a field of the row
  (nil when the row has no such field), and a source that knows five key vectors (two
  records for one of them), fails on one of them and has no record for any other.
\<close>

definition field_value :: "tuple \<Rightarrow> string \<Rightarrow> val" where
  "field_value d f = (case Message d f of None \<Rightarrow> VNil | Some v \<Rightarrow> v)"

definition ex_record :: "string \<Rightarrow> message_tuple" where
  "ex_record s = \<lparr>ToMap = [''name'' \<mapsto> VStr s], AllMeta = None\<rparr>"

definition ex_source ::
  "unit \<Rightarrow> string list \<Rightarrow> string list \<Rightarrow> val list \<Rightarrow> (error + sink_tuple_list) \<times> unit" where
  "ex_source s fs ks cvs =
     (if cvs = [VInt 7] then (Inr (Some [ex_record ''x'']), s)
      else if cvs = [VInt 2] then (Inr (Some [ex_record ''a'', ex_record ''b'']), s)
      else if cvs = [VInt 1] then (Inr (Some [ex_record ''one'']), s)
      else if cvs = [VStr ''1''] then (Inr (Some [ex_record ''uno'']), s)
      else if cvs = [VInt 0] then (Inl (LookupError ''source unavailable''), s)
      else (Inr (Some []), s))"

definition ex_x :: "(string, unit) collaborators" where
  "ex_x = \<lparr>Eval = field_value, Lookup = ex_source, commonIngest = Some\<rparr>"

definition ex_node :: "join_type \<Rightarrow> bool \<Rightarrow> string LookupNode" where
  "ex_node jt cached =
     \<lparr>name = ''lookup1'', joinType = jt, vals = [''id''],
      conf = \<lparr>Cache_enabled = cached, CacheTTL = 1000, CacheMissingKey = False\<rparr>,
      fields_n = [''name''], keys = [''id'']\<rparr>"

definition ex_row :: "val \<Rightarrow> tuple" where
  "ex_row v = \<lparr>Emitter = ''demo'', Message = [''id'' \<mapsto> v], Metadata = None, Timestamp = 0\<rparr>"

definition ex_state :: "bool \<Rightarrow> unit state" where
  "ex_state cached =
     \<lparr>cache = (if cached then Some (NewCache 1000 False) else None),
      source = (), calls = [], outs = []\<rparr>"

definition ex_window :: "val list \<Rightarrow> WindowTuples" where
  "ex_window vs = \<lparr>Rows = map (\<lambda>v. Row (ex_row v)) vs,
                  GetWindowRange = Some \<lparr>windowStart = 0, windowEnd = 10\<rparr>\<rparr>"

lemmas ex_defs =
  field_value_def ex_record_def ex_source_def ex_x_def ex_node_def ex_row_def ex_state_def

lemmas lookup_defs =
  lookup_def fetch_def ns_Lookup_def key_values_def hasNil_def Sprintf_v_def decimal.simps
  Get_def Set_def has_records_def NewCache_def append_merged_def AddTuple_def right_tuple_def

lemmas exec_defs =
  Exec_def init_state_def handle_item_def Broadcast_def window_callback_def Close_def

section \<open>Properties\<close>

subsection \<open>How \<^verbatim>\<open>lookup\<close> ends, by what was fetched\<close>

lemma foldl_append_merged:
  "foldl (append_merged n now d) acc ts = acc @ map (\<lambda>t. [d, right_tuple n now t]) ts"
  by (induction ts arbitrary: acc) (simp_all add: append_merged_def AddTuple_def)

lemma fetch_hasNil: "hasNil cvs \<Longrightarrow> fetch x n now cvs w = (Inr None, w)"
  by (simp add: fetch_def)

lemma lookup_Inl:
  "fetch x n now (key_values x n d) w = (Inl e, w') \<Longrightarrow>
   lookup x n now d tuples w = (Err e, tuples, w')"
  by (simp add: lookup_def)

lemma lookup_nil:
  "fetch x n now (key_values x n d) w = (Inr None, w') \<Longrightarrow>
   lookup x n now d tuples w = (Panic, tuples, w')"
  by (simp add: lookup_def)

lemma lookup_Some:
  "fetch x n now (key_values x n d) w = (Inr (Some ts), w') \<Longrightarrow>
   lookup x n now d tuples w = (Ok, tuples @ joined n now d ts, w')"
  by (auto simp add: lookup_def joined_def foldl_append_merged AddTuple_def)

lemma lookup_hasNil:
  "hasNil (key_values x n d) \<Longrightarrow> lookup x n now d tuples w = (Panic, tuples, w)"
  by (simp add: lookup_nil fetch_hasNil)

lemma fetch_cases:
  obtains (err) e w' where "fetch x n now cvs w = (Inl e, w')"
  | (nil) w' where "fetch x n now cvs w = (Inr None, w')"
  | (some) ts w' where "fetch x n now cvs w = (Inr (Some ts), w')"
proof (cases "fetch x n now cvs w")
  case (Pair r w')
  then show ?thesis
    by (cases r; cases "projr r") (auto intro: err nil some)
qed

lemma ns_Lookup_outs: "outs (snd (ns_Lookup x n cvs w)) = outs w"
  by (simp add: ns_Lookup_def split: prod.splits)

lemma fetch_outs: "outs (snd (fetch x n now cvs w)) = outs w"
  using ns_Lookup_outs [of x n cvs w]
    ns_Lookup_outs [of x n cvs "w\<lparr>calls := calls w @ [CacheGet (Sprintf_v cvs)]\<rparr>"]
  by (auto simp add: fetch_def Let_def split: option.splits prod.splits sum.splits)

lemma lookup_outs: "outs (snd (snd (lookup x n now d tuples w))) = outs w"
  using fetch_outs [of x n now "key_values x n d" w]
  by (cases rule: fetch_cases [of x n now "key_values x n d" w])
     (simp_all add: lookup_Inl lookup_nil lookup_Some)

subsection \<open>Rows with a nil key value\<close>

text \<open>
  C1. The claim: a row with a nil among its key values yields, without error, one Joined
  Tuple holding the row alone under a LEFT join and none under an inner join. The code
  does not do that. On the LEFT join node, the row whose key expression evaluates to nil
  leaves \<^verbatim>\<open>r\<close> the nil interface, the test \<^verbatim>\<open>r != nil && r.Len() == 0\<close> fails, nothing is
  appended, and \<^verbatim>\<open>r.RangeOfTuples\<close> panics: the call ends in a panic with no Joined Tuple.
\<close>

theorem lookup_nil_key_panics:
  "hasNil (key_values ex_x (ex_node LEFT_JOIN False) (ex_row VNil)) \<and>
   lookup ex_x (ex_node LEFT_JOIN False) 0 (ex_row VNil) [] (ex_state False)
     = (Panic, [], ex_state False) \<and>
   lookup ex_x (ex_node INNER_JOIN False) 0 (ex_row VNil) [] (ex_state False)
     = (Panic, [], ex_state False)"
  by (simp add: ex_defs lookup_defs)

text \<open>
  C6. For every row with a nil among its key values, \<^verbatim>\<open>lookup\<close> calls neither the cache's
  \<^verbatim>\<open>Get\<close> nor its \<^verbatim>\<open>Set\<close> nor the source's \<^verbatim>\<open>Lookup\<close>: the record of calls, the cache and
  the source are after the call what they were before it.
\<close>

theorem lookup_nil_key_frame:
  "hasNil (key_values x n d) \<Longrightarrow>
   calls (snd (snd (lookup x n now d tuples w))) = calls w \<and>
   cache (snd (snd (lookup x n now d tuples w))) = cache w \<and>
   source (snd (snd (lookup x n now d tuples w))) = source w"
  by (simp add: lookup_hasNil)

theorem lookup_nil_key_frame_witness:
  "hasNil (key_values ex_x (ex_node LEFT_JOIN True) (ex_row VNil)) \<and>
   cache (ex_state True) = Some (NewCache 1000 False) \<and>
   calls (snd (snd (lookup ex_x (ex_node LEFT_JOIN True) 5 (ex_row VNil) [] (ex_state True))))
     = calls (ex_state True) \<and>
   cache (snd (snd (lookup ex_x (ex_node LEFT_JOIN True) 5 (ex_row VNil) [] (ex_state True))))
     = cache (ex_state True) \<and>
   source (snd (snd (lookup ex_x (ex_node LEFT_JOIN True) 5 (ex_row VNil) [] (ex_state True))))
     = source (ex_state True)"
proof -
  have h: "hasNil (key_values ex_x (ex_node LEFT_JOIN True) (ex_row VNil))"
    by (simp add: ex_defs key_values_def hasNil_def)
  have c: "cache (ex_state True) = Some (NewCache 1000 False)"
    by (simp add: ex_state_def)
  from h c lookup_nil_key_frame [OF h, of 5 "[]" "ex_state True"] show ?thesis
    by blast
qed

subsection \<open>The merge step\<close>

text \<open>
  C4. For every row without a nil among its key values for which the cache or the source
  answers with a non-nil result of length zero: under a LEFT join exactly one Joined Tuple
  is appended, the row alone; under any other join nothing is appended. The call returns
  nil.
\<close>

theorem lookup_empty_result:
  "\<not> hasNil (key_values x n d) \<Longrightarrow>
   fetch x n now (key_values x n d) w = (Inr (Some []), w') \<Longrightarrow>
   lookup x n now d tuples w =
     (Ok, (if joinType n = LEFT_JOIN then tuples @ [[d]] else tuples), w')"
  by (simp add: lookup_Some joined_def)

theorem lookup_empty_result_witness:
  "\<not> hasNil (key_values ex_x (ex_node LEFT_JOIN False) (ex_row (VInt 3))) \<and>
   lookup ex_x (ex_node LEFT_JOIN False) 0 (ex_row (VInt 3)) [] (ex_state False)
     = (Ok, [[ex_row (VInt 3)]],
        (ex_state False)\<lparr>calls := [SourceLookup [''name''] [''id''] [VInt 3]]\<rparr>) \<and>
   \<not> hasNil (key_values ex_x (ex_node INNER_JOIN False) (ex_row (VInt 3))) \<and>
   lookup ex_x (ex_node INNER_JOIN False) 0 (ex_row (VInt 3)) [] (ex_state False)
     = (Ok, [],
        (ex_state False)\<lparr>calls := [SourceLookup [''name''] [''id''] [VInt 3]]\<rparr>)"
proof -
  let ?w' = "(ex_state False)\<lparr>calls := [SourceLookup [''name''] [''id''] [VInt 3]]\<rparr>"
  have h1: "\<not> hasNil (key_values ex_x (ex_node LEFT_JOIN False) (ex_row (VInt 3)))"
    by (simp add: ex_defs key_values_def hasNil_def)
  have f1: "fetch ex_x (ex_node LEFT_JOIN False) 0
              (key_values ex_x (ex_node LEFT_JOIN False) (ex_row (VInt 3))) (ex_state False)
            = (Inr (Some []), ?w')"
    by (simp add: ex_defs fetch_def ns_Lookup_def key_values_def hasNil_def)
  have h2: "\<not> hasNil (key_values ex_x (ex_node INNER_JOIN False) (ex_row (VInt 3)))"
    by (simp add: ex_defs key_values_def hasNil_def)
  have f2: "fetch ex_x (ex_node INNER_JOIN False) 0
              (key_values ex_x (ex_node INNER_JOIN False) (ex_row (VInt 3))) (ex_state False)
            = (Inr (Some []), ?w')"
    by (simp add: ex_defs fetch_def ns_Lookup_def key_values_def hasNil_def)
  have j1: "joinType (ex_node LEFT_JOIN False) = LEFT_JOIN" by (simp add: ex_node_def)
  have j2: "joinType (ex_node INNER_JOIN False) \<noteq> LEFT_JOIN" by (simp add: ex_node_def)
  from lookup_empty_result [OF h1 f1, of "[]"] lookup_empty_result [OF h2 f2, of "[]"] h1 h2 j1 j2
  show ?thesis by simp
qed

text \<open>
  C8. Whatever \<^verbatim>\<open>lookup\<close> appends to the batch, each appended Joined Tuple starts with the
  source row: it is the row alone, or the row followed by one right-hand tuple whose
  emitter is the node's name.
\<close>

theorem lookup_row_first:
  "\<exists>new. fst (snd (lookup x n now d tuples w)) = tuples @ new \<and>
         (\<forall>jt \<in> set new. jt = [d] \<or> (\<exists>t. jt = [d, t] \<and> Emitter t = name n))"
proof (cases rule: fetch_cases [of x n now "key_values x n d" w])
  case (err e w')
  then show ?thesis by (simp add: lookup_Inl)
next
  case (nil w')
  then show ?thesis by (simp add: lookup_nil)
next
  case (some ts w')
  have "\<forall>jt \<in> set (joined n now d ts). jt = [d] \<or> (\<exists>t. jt = [d, t] \<and> Emitter t = name n)"
    by (auto simp add: joined_def right_tuple_def)
  with some show ?thesis by (simp add: lookup_Some)
qed

theorem lookup_row_first_witness:
  "fst (snd (lookup ex_x (ex_node LEFT_JOIN False) 5 (ex_row (VInt 7)) [] (ex_state False)))
     = [[ex_row (VInt 7), right_tuple (ex_node LEFT_JOIN False) 5 (ex_record ''x'')]] \<and>
   Emitter (right_tuple (ex_node LEFT_JOIN False) 5 (ex_record ''x''))
     = name (ex_node LEFT_JOIN False)"
proof -
  let ?n = "ex_node LEFT_JOIN False"
  let ?d = "ex_row (VInt 7)"
  let ?t = "right_tuple ?n 5 (ex_record ''x'')"
  have v: "fst (snd (lookup ex_x ?n 5 ?d [] (ex_state False))) = [[?d, ?t]]"
    by (simp add: ex_defs lookup_defs)
  from lookup_row_first [of ex_x ?n 5 ?d "[]" "ex_state False"]
  obtain new where n: "fst (snd (lookup ex_x ?n 5 ?d [] (ex_state False))) = [] @ new"
    and a: "\<forall>jt \<in> set new. jt = [?d] \<or> (\<exists>t. jt = [?d, t] \<and> Emitter t = name ?n)"
    by blast
  from n v have "new = [[?d, ?t]]" by simp
  with a have "Emitter ?t = name ?n" by simp
  with v show ?thesis by simp
qed

subsection \<open>Windows\<close>

lemma ex_record_neq: "s \<noteq> t \<Longrightarrow> ex_record s \<noteq> ex_record t"
proof
  assume d: "s \<noteq> t" and e: "ex_record s = ex_record t"
  from e have "ToMap (ex_record s) ''name'' = ToMap (ex_record t) ''name''"
    by simp
  with d show False by (simp add: ex_record_def)
qed

lemma Range_append:
  "Range f pre s = (Ok, s1) \<Longrightarrow> Range f (pre @ rest) s = Range f rest s1"
proof (induction pre arbitrary: s)
  case Nil
  then show ?case by simp
next
  case (Cons r pre)
  obtain st s' where fr: "f r s = (st, s')" by (cases "f r s")
  with Cons.prems have "st = Ok" by (cases st) simp_all
  with fr Cons show ?case by simp
qed

lemma window_callback_Row:
  "window_callback x n now (Row d) (acc, w) = lookup x n now d acc w"
  by (simp add: window_callback_def)

lemma window_callback_NotRow:
  "window_callback x n now (NotRow shown) s = (Err (InvalidWindowElement shown), s)"
  by (simp add: window_callback_def)

lemma window_callback_outs: "outs (snd (snd (window_callback x n now r (acc, w)))) = outs w"
  by (cases r) (simp_all add: window_callback_Row window_callback_NotRow lookup_outs)

lemma Range_outs:
  "Range (window_callback x n now) rs (acc, w) = (st, acc', w') \<Longrightarrow> outs w' = outs w"
proof (induction rs arbitrary: acc w)
  case Nil
  then show ?case by simp
next
  case (Cons r rs)
  obtain st1 acc1 w1 where c: "window_callback x n now r (acc, w) = (st1, acc1, w1)"
    by (cases "window_callback x n now r (acc, w)")
  with window_callback_outs [of x n now r acc w] have o: "outs w1 = outs w" by simp
  show ?case
  proof (cases st1)
    case Ok
    with c Cons.prems have "Range (window_callback x n now) rs (acc1, w1) = (st, acc', w')"
      by simp
    with Cons.IH o show ?thesis by simp
  next
    case (Err e)
    with c Cons.prems o show ?thesis by simp
  next
    case Panic
    with c Cons.prems o show ?thesis by simp
  qed
qed

lemma fetch_answers:
  "fetch x n now (key_values x n d) w = (res, w1) \<Longrightarrow>
   answers x n now (d # ds) (cache w) (source w)
     = res # answers x n now ds (cache w1) (source w1)"
  by (auto simp add: fetch_def ns_Lookup_def Let_def
           split: if_splits option.splits prod.splits sum.splits)

lemma Range_groups:
  "Range (window_callback x n now) rows (acc, w) = (Ok, content, w') \<Longrightarrow>
   \<exists>ds rs. rows = map Row ds \<and>
           answers x n now ds (cache w) (source w) = map (\<lambda>ts. Inr (Some ts)) rs \<and>
           content = acc @ concat (map2 (joined n now) ds rs)"
proof (induction rows arbitrary: acc w)
  case Nil
  then show ?case by simp
next
  case (Cons r rows)
  show ?case
  proof (cases r)
    case (NotRow shown)
    with Cons.prems show ?thesis by (simp add: window_callback_NotRow)
  next
    case (Row d)
    show ?thesis
    proof (cases rule: fetch_cases [of x n now "key_values x n d" w])
      case (err e w1)
      with Row Cons.prems show ?thesis by (simp add: window_callback_Row lookup_Inl)
    next
      case (nil w1)
      with Row Cons.prems show ?thesis by (simp add: window_callback_Row lookup_nil)
    next
      case (some ts w1)
      with Row Cons.prems
      have "Range (window_callback x n now) rows (acc @ joined n now d ts, w1) = (Ok, content, w')"
        by (simp add: window_callback_Row lookup_Some)
      from Cons.IH [OF this] obtain ds rs where
        ih: "rows = map Row ds"
            "answers x n now ds (cache w1) (source w1) = map (\<lambda>ts. Inr (Some ts)) rs"
            "content = (acc @ joined n now d ts) @ concat (map2 (joined n now) ds rs)"
        by blast
      have "r # rows = map Row (d # ds) \<and>
            answers x n now (d # ds) (cache w) (source w)
              = map (\<lambda>ts. Inr (Some ts)) (ts # rs) \<and>
            content = acc @ concat (map2 (joined n now) (d # ds) (ts # rs))"
        using Row ih fetch_answers [OF some, of ds] by simp
      then have "\<exists>rs. r # rows = map Row (d # ds) \<and>
            answers x n now (d # ds) (cache w) (source w) = map (\<lambda>ts. Inr (Some ts)) rs \<and>
            content = acc @ concat (map2 (joined n now) (d # ds) rs)" ..
      then show ?thesis ..
    qed
  qed
qed

text \<open>
  C2. When, in a window, the rows before some row are looked up successfully and the
  lookup of that row returns an error, the pass ends in the state reached right after the
  failing lookup (no later row of the window is looked up), with exactly one value
  broadcast for the window: that error, and no batch.
\<close>

theorem window_error_aborts:
  assumes ing: "commonIngest x item = Some (DWindow wt)"
    and item: "item = DWindow wi"
    and rows: "Rows wt = pre @ Row d # post"
    and pre: "Range (window_callback x n now) pre ([], w) = (Ok, acc, w1)"
    and fail: "lookup x n now d acc w1 = (Err e, acc', w2)"
  shows "handle_item x n now item w = (Next, w2\<lparr>outs := outs w @ [EmitError e]\<rparr>)"
proof -
  have "Range (window_callback x n now) (Rows wt) ([], w)
        = Range (window_callback x n now) (Row d # post) (acc, w1)"
    using Range_append [OF pre] rows by simp
  also have "\<dots> = (Err e, acc', w2)"
    using fail by (simp add: window_callback_Row)
  finally have r: "Range (window_callback x n now) (Rows wt) ([], w) = (Err e, acc', w2)" .
  from Range_outs [OF r] have "outs w2 = outs w" .
  with r ing item show ?thesis
    by (simp add: handle_item_def Broadcast_def)
qed

theorem window_error_aborts_witness:
  "handle_item ex_x (ex_node INNER_JOIN False) 5 (DWindow (ex_window [VInt 7, VInt 0, VInt 1]))
     (ex_state False)
   = (Next, (ex_state False)
        \<lparr>calls := [SourceLookup [''name''] [''id''] [VInt 7],
                   SourceLookup [''name''] [''id''] [VInt 0]],
         outs := [EmitError (LookupError ''source unavailable'')]\<rparr>)"
proof -
  let ?n = "ex_node INNER_JOIN False"
  let ?w1 = "(ex_state False)\<lparr>calls := [SourceLookup [''name''] [''id''] [VInt 7]]\<rparr>"
  let ?w2 = "(ex_state False)\<lparr>calls := [SourceLookup [''name''] [''id''] [VInt 7],
                   SourceLookup [''name''] [''id''] [VInt 0]]\<rparr>"
  let ?acc = "[[ex_row (VInt 7), right_tuple ?n 5 (ex_record ''x'')]]"
  have ing: "commonIngest ex_x (DWindow (ex_window [VInt 7, VInt 0, VInt 1]))
             = Some (DWindow (ex_window [VInt 7, VInt 0, VInt 1]))"
    by (simp add: ex_x_def)
  have rows: "Rows (ex_window [VInt 7, VInt 0, VInt 1])
              = [Row (ex_row (VInt 7))] @ Row (ex_row (VInt 0)) # [Row (ex_row (VInt 1))]"
    by (simp add: ex_window_def)
  have pre: "Range (window_callback ex_x ?n 5) [Row (ex_row (VInt 7))] ([], ex_state False)
             = (Ok, ?acc, ?w1)"
    by (simp add: ex_defs lookup_defs exec_defs)
  have fail: "lookup ex_x ?n 5 (ex_row (VInt 0)) ?acc ?w1
              = (Err (LookupError ''source unavailable''), ?acc, ?w2)"
    by (simp add: ex_defs lookup_defs)
  have o: "outs (ex_state False) = []" by (simp add: ex_state_def)
  from window_error_aborts [OF ing refl rows pre fail] o show ?thesis by simp
qed

text \<open>
  C7. When every row of a window is looked up successfully, the batch broadcast holds, in
  window order, the group of each row; the group of a row pairs the row with the records
  it was answered, in the order of the answer, and the answer of the source is what its
  \<^verbatim>\<open>Lookup\<close> returned, in the order it returned it.
\<close>

theorem window_batch_order:
  assumes ing: "commonIngest x item = Some (DWindow wt)"
    and item: "item = DWindow wi"
    and ok: "Range (window_callback x n now) (Rows wt) ([], w) = (Ok, content, w')"
  shows "handle_item x n now item w
           = (Next, Broadcast (EmitTuples \<lparr>Content = content, WindowRange = GetWindowRange wi\<rparr>) w') \<and>
         (\<exists>ds rs. Rows wt = map Row ds \<and>
                  answers x n now ds (cache w) (source w) = map (\<lambda>ts. Inr (Some ts)) rs \<and>
                  content = concat (map2 (joined n now) ds rs))"
proof -
  from ing item ok have "handle_item x n now item w
           = (Next, Broadcast (EmitTuples \<lparr>Content = content, WindowRange = GetWindowRange wi\<rparr>) w')"
    by (simp add: handle_item_def)
  moreover from Range_groups [OF ok]
  have "\<exists>ds rs. Rows wt = map Row ds \<and>
                  answers x n now ds (cache w) (source w) = map (\<lambda>ts. Inr (Some ts)) rs \<and>
                  content = concat (map2 (joined n now) ds rs)" by simp
  ultimately show ?thesis by blast
qed

theorem window_batch_order_witness:
  "fst (Lookup ex_x () [''name''] [''id''] [VInt 2])
     = Inr (Some [ex_record ''a'', ex_record ''b'']) \<and>
   ex_record ''a'' \<noteq> ex_record ''b'' \<and>
   handle_item ex_x (ex_node LEFT_JOIN False) 5 (DWindow (ex_window [VInt 7, VInt 2, VInt 3]))
     (ex_state False)
   = (Next, (ex_state False)
        \<lparr>calls := [SourceLookup [''name''] [''id''] [VInt 7],
                   SourceLookup [''name''] [''id''] [VInt 2],
                   SourceLookup [''name''] [''id''] [VInt 3]],
         outs := [EmitTuples
            \<lparr>Content = [[ex_row (VInt 7), right_tuple (ex_node LEFT_JOIN False) 5 (ex_record ''x'')],
                        [ex_row (VInt 2), right_tuple (ex_node LEFT_JOIN False) 5 (ex_record ''a'')],
                        [ex_row (VInt 2), right_tuple (ex_node LEFT_JOIN False) 5 (ex_record ''b'')],
                        [ex_row (VInt 3)]],
             WindowRange = Some \<lparr>windowStart = 0, windowEnd = 10\<rparr>\<rparr>]\<rparr>) \<and>
   (\<exists>ds rs. Rows (ex_window [VInt 7, VInt 2, VInt 3]) = map Row ds \<and>
            answers ex_x (ex_node LEFT_JOIN False) 5 ds (cache (ex_state False))
                (source (ex_state False))
              = map (\<lambda>ts. Inr (Some ts)) rs \<and>
            [[ex_row (VInt 7), right_tuple (ex_node LEFT_JOIN False) 5 (ex_record ''x'')],
             [ex_row (VInt 2), right_tuple (ex_node LEFT_JOIN False) 5 (ex_record ''a'')],
             [ex_row (VInt 2), right_tuple (ex_node LEFT_JOIN False) 5 (ex_record ''b'')],
             [ex_row (VInt 3)]]
              = concat (map2 (joined (ex_node LEFT_JOIN False) 5) ds rs))"
proof -
  let ?n = "ex_node LEFT_JOIN False"
  let ?w' = "(ex_state False)
        \<lparr>calls := [SourceLookup [''name''] [''id''] [VInt 7],
                   SourceLookup [''name''] [''id''] [VInt 2],
                   SourceLookup [''name''] [''id''] [VInt 3]]\<rparr>"
  let ?content = "[[ex_row (VInt 7), right_tuple ?n 5 (ex_record ''x'')],
                   [ex_row (VInt 2), right_tuple ?n 5 (ex_record ''a'')],
                   [ex_row (VInt 2), right_tuple ?n 5 (ex_record ''b'')],
                   [ex_row (VInt 3)]]"
  have src: "fst (Lookup ex_x () [''name''] [''id''] [VInt 2])
             = Inr (Some [ex_record ''a'', ex_record ''b''])"
    by (simp add: ex_x_def ex_source_def)
  have neq: "ex_record ''a'' \<noteq> ex_record ''b''"
    by (rule ex_record_neq) simp
  have ing: "commonIngest ex_x (DWindow (ex_window [VInt 7, VInt 2, VInt 3]))
             = Some (DWindow (ex_window [VInt 7, VInt 2, VInt 3]))"
    by (simp add: ex_x_def)
  have ok: "Range (window_callback ex_x ?n 5) (Rows (ex_window [VInt 7, VInt 2, VInt 3]))
              ([], ex_state False) = (Ok, ?content, ?w')"
    by (simp add: ex_defs lookup_defs exec_defs ex_window_def)
  have b: "Broadcast (EmitTuples \<lparr>Content = ?content,
              WindowRange = GetWindowRange (ex_window [VInt 7, VInt 2, VInt 3])\<rparr>) ?w'
           = ?w'\<lparr>outs := [EmitTuples \<lparr>Content = ?content,
                  WindowRange = Some \<lparr>windowStart = 0, windowEnd = 10\<rparr>\<rparr>]\<rparr>"
    by (simp add: Broadcast_def ex_window_def ex_state_def)
  from window_batch_order [OF ing refl ok] b src neq show ?thesis by simp
qed

subsection \<open>Other input\<close>

text \<open>
  C9. An item whose data is neither a row nor a window makes the pass broadcast the
  "invalid input type" error and nothing else, and the loop goes on with the items that
  follow.
\<close>

theorem invalid_input_reported:
  "commonIngest x item = Some (DOther shown) \<Longrightarrow>
   handle_item x n now item w
     = (Next, w\<lparr>outs := outs w @ [EmitError (InvalidInputType shown)]\<rparr>) \<and>
   loop x n (Item now item # evs) w
     = loop x n evs (w\<lparr>outs := outs w @ [EmitError (InvalidInputType shown)]\<rparr>)"
  by (simp add: handle_item_def Broadcast_def)

theorem invalid_input_reported_witness:
  "commonIngest ex_x (DOther ''42'') = Some (DOther ''42'') \<and>
   handle_item ex_x (ex_node INNER_JOIN False) 1 (DOther ''42'') (ex_state False)
     = (Next, (ex_state False)\<lparr>outs := [EmitError (InvalidInputType ''42'')]\<rparr>) \<and>
   loop ex_x (ex_node INNER_JOIN False)
        [Item 1 (DOther ''42''), Item 2 (DRow (ex_row (VInt 7)))] (ex_state False)
     = (Blocked,
        (ex_state False)
          \<lparr>calls := [SourceLookup [''name''] [''id''] [VInt 7]],
           outs := [EmitError (InvalidInputType ''42''),
                    EmitTuples \<lparr>Content = [[ex_row (VInt 7),
                                   right_tuple (ex_node INNER_JOIN False) 2 (ex_record ''x'')]],
                                WindowRange = None\<rparr>]\<rparr>)"
proof -
  have h: "commonIngest ex_x (DOther ''42'') = Some (DOther ''42'')"
    by (simp add: ex_x_def)
  have o: "outs (ex_state False) = []" by (simp add: ex_state_def)
  have rest: "loop ex_x (ex_node INNER_JOIN False) [Item 2 (DRow (ex_row (VInt 7)))]
          ((ex_state False)\<lparr>outs := [EmitError (InvalidInputType ''42'')]\<rparr>)
     = (Blocked,
        (ex_state False)
          \<lparr>calls := [SourceLookup [''name''] [''id''] [VInt 7]],
           outs := [EmitError (InvalidInputType ''42''),
                    EmitTuples \<lparr>Content = [[ex_row (VInt 7),
                                   right_tuple (ex_node INNER_JOIN False) 2 (ex_record ''x'')]],
                                WindowRange = None\<rparr>]\<rparr>)"
    by (simp add: ex_defs lookup_defs exec_defs)
  from invalid_input_reported [OF h, of "ex_node INNER_JOIN False" 1 "ex_state False"
      "[Item 2 (DRow (ex_row (VInt 7)))]"] h o rest
  show ?thesis by simp
qed

subsection \<open>The cache protocol\<close>

lemma lookup_state_fetch:
  "snd (snd (lookup x n now d tuples w)) = snd (fetch x n now (key_values x n d) w)"
  by (cases rule: fetch_cases [of x n now "key_values x n d" w])
     (simp_all add: lookup_Inl lookup_nil lookup_Some)

lemma Get_Set:
  "has_records r \<or> cacheMissingKey c \<Longrightarrow> now2 < now1 + expireTime c \<Longrightarrow>
   Get (Set c now1 k r) now2 k = Some r"
  by (auto simp add: Get_def Set_def)

lemma fetch_miss:
  assumes "cache w = Some c" and "\<not> hasNil cvs" and "Get c now (Sprintf_v cvs) = None"
    and "fst (Lookup x (source w) (fields_n n) (keys n) cvs) = Inr r"
  shows "fst (fetch x n now cvs w) = Inr r"
    and "cache (snd (fetch x n now cvs w)) = Some (Set c now (Sprintf_v cvs) r)"
    and "calls (snd (fetch x n now cvs w))
         = calls w @ [CacheGet (Sprintf_v cvs), SourceLookup (fields_n n) (keys n) cvs,
                      CacheSet (Sprintf_v cvs) r]"
proof -
  obtain res s' where l: "Lookup x (source w) (fields_n n) (keys n) cvs = (res, s')"
    by (cases "Lookup x (source w) (fields_n n) (keys n) cvs")
  with assms(4) have res: "res = Inr r" by simp
  have f: "fetch x n now cvs w
           = (Inr r, w\<lparr>source := s',
                        calls := calls w @ [CacheGet (Sprintf_v cvs),
                                            SourceLookup (fields_n n) (keys n) cvs,
                                            CacheSet (Sprintf_v cvs) r],
                        cache := Some (Set c now (Sprintf_v cvs) r)\<rparr>)"
    using assms(1-3) l res by (simp add: fetch_def ns_Lookup_def Let_def)
  show "fst (fetch x n now cvs w) = Inr r"
    and "cache (snd (fetch x n now cvs w)) = Some (Set c now (Sprintf_v cvs) r)"
    and "calls (snd (fetch x n now cvs w))
         = calls w @ [CacheGet (Sprintf_v cvs), SourceLookup (fields_n n) (keys n) cvs,
                      CacheSet (Sprintf_v cvs) r]"
    by (simp_all add: f)
qed

lemma fetch_hit:
  assumes "cache w = Some c" and "\<not> hasNil cvs" and "Get c now (Sprintf_v cvs) = Some r"
  shows "fetch x n now cvs w = (Inr r, w\<lparr>calls := calls w @ [CacheGet (Sprintf_v cvs)]\<rparr>)"
  using assms by (simp add: fetch_def)

lemma source_calls_append [simp]: "source_calls (cs @ ds) = source_calls cs + source_calls ds"
  by (simp add: source_calls_def)

text \<open>
  C3, as the code has it. With caching on, take two lookups in a row of rows without a nil
  key value whose key vectors print to the same cache key, the second before the entry
  of the first expires. If the first finds no live entry for the key, the source answers
  it without error, and the answer has a record or the cache keeps missing keys, then the
  calls made are \<^verbatim>\<open>Get\<close>, \<^verbatim>\<open>Lookup\<close>, \<^verbatim>\<open>Set\<close> for the first and \<^verbatim>\<open>Get\<close> alone for the second:
  the source is called exactly once, and the second lookup receives the result the first
  one stored.
\<close>

theorem second_lookup_served_from_cache:
  assumes c: "cache w = Some c"
    and n1: "\<not> hasNil (key_values x n d1)"
    and n2: "\<not> hasNil (key_values x n d2)"
    and same: "Sprintf_v (key_values x n d2) = Sprintf_v (key_values x n d1)"
    and miss: "Get c now1 (Sprintf_v (key_values x n d1)) = None"
    and ok: "fst (Lookup x (source w) (fields_n n) (keys n) (key_values x n d1)) = Inr r"
    and kept: "has_records r \<or> cacheMissingKey c"
    and ttl: "now2 < now1 + expireTime c"
  shows "calls (snd (snd (lookup x n now2 d2 tuples2 (snd (snd (lookup x n now1 d1 tuples1 w))))))
         = calls w @ [CacheGet (Sprintf_v (key_values x n d1)),
                      SourceLookup (fields_n n) (keys n) (key_values x n d1),
                      CacheSet (Sprintf_v (key_values x n d1)) r,
                      CacheGet (Sprintf_v (key_values x n d1))] \<and>
         source_calls (calls (snd (snd (lookup x n now2 d2 tuples2
                                 (snd (snd (lookup x n now1 d1 tuples1 w))))))) 
         = source_calls (calls w) + 1 \<and>
         fst (fetch x n now2 (key_values x n d2) (snd (snd (lookup x n now1 d1 tuples1 w))))
         = Inr r"
proof -
  let ?k = "Sprintf_v (key_values x n d1)"
  let ?w1 = "snd (snd (lookup x n now1 d1 tuples1 w))"
  have w1: "?w1 = snd (fetch x n now1 (key_values x n d1) w)"
    by (rule lookup_state_fetch)
  have c1: "cache ?w1 = Some (Set c now1 ?k r)"
    using fetch_miss(2) [OF c n1 miss ok] w1 by simp
  have l1: "calls ?w1 = calls w @ [CacheGet ?k, SourceLookup (fields_n n) (keys n) (key_values x n d1),
                                   CacheSet ?k r]"
    using fetch_miss(3) [OF c n1 miss ok] w1 by simp
  have g: "Get (Set c now1 ?k r) now2 (Sprintf_v (key_values x n d2)) = Some r"
    using Get_Set [OF kept ttl, where k = "?k"] same by simp
  have f2: "fetch x n now2 (key_values x n d2) ?w1
            = (Inr r, ?w1\<lparr>calls := calls ?w1 @ [CacheGet (Sprintf_v (key_values x n d2))]\<rparr>)"
    by (rule fetch_hit [OF c1 n2 g])
  have l2: "calls (snd (snd (lookup x n now2 d2 tuples2 ?w1)))
            = calls ?w1 @ [CacheGet ?k]"
    using f2 same by (simp add: lookup_state_fetch)
  show ?thesis
    using l1 l2 f2 by (simp add: source_calls_def)
qed

theorem second_lookup_served_from_cache_witness:
  "cache (ex_state True) = Some (NewCache 1000 False) \<and>
   has_records (Some [ex_record ''x'']) \<and>
   calls (snd (snd (lookup ex_x (ex_node INNER_JOIN True) 999 (ex_row (VInt 7)) []
            (snd (snd (lookup ex_x (ex_node INNER_JOIN True) 0 (ex_row (VInt 7)) []
                         (ex_state True)))))))
     = [CacheGet ''[7]'', SourceLookup [''name''] [''id''] [VInt 7],
        CacheSet ''[7]'' (Some [ex_record ''x'']), CacheGet ''[7]''] \<and>
   source_calls (calls (snd (snd (lookup ex_x (ex_node INNER_JOIN True) 999 (ex_row (VInt 7)) []
            (snd (snd (lookup ex_x (ex_node INNER_JOIN True) 0 (ex_row (VInt 7)) []
                         (ex_state True)))))))) = 1 \<and>
   cacheMissingKey (NewCache 1000 True) \<and>
   calls (snd (snd (lookup ex_x (ex_node INNER_JOIN True) 999 (ex_row (VInt 3)) []
            (snd (snd (lookup ex_x (ex_node INNER_JOIN True) 0 (ex_row (VInt 3)) []
                         ((ex_state True)\<lparr>cache := Some (NewCache 1000 True)\<rparr>)))))))
     = [CacheGet ''[3]'', SourceLookup [''name''] [''id''] [VInt 3],
        CacheSet ''[3]'' (Some []), CacheGet ''[3]'']"
proof -
  let ?n = "ex_node INNER_JOIN True"
  let ?d = "ex_row (VInt 7)"
  let ?w = "ex_state True"
  let ?d3 = "ex_row (VInt 3)"
  let ?w3 = "(ex_state True)\<lparr>cache := Some (NewCache 1000 True)\<rparr>"
  have kv: "key_values ex_x ?n ?d = [VInt 7]" "key_values ex_x ?n ?d3 = [VInt 3]"
    by (simp_all add: ex_defs key_values_def)
  have k: "Sprintf_v [VInt 7] = ''[7]''" "Sprintf_v [VInt 3] = ''[3]''"
    by (simp_all add: Sprintf_v_def decimal.simps)
  have c: "cache ?w = Some (NewCache 1000 False)" by (simp add: ex_state_def)
  have c3: "cache ?w3 = Some (NewCache 1000 True)" by simp
  have h: "\<not> hasNil (key_values ex_x ?n ?d)" by (simp add: kv hasNil_def)
  have h3: "\<not> hasNil (key_values ex_x ?n ?d3)" by (simp add: kv hasNil_def)
  have g: "Get (NewCache 1000 False) 0 (Sprintf_v (key_values ex_x ?n ?d)) = None"
    by (simp add: Get_def NewCache_def)
  have g3: "Get (NewCache 1000 True) 0 (Sprintf_v (key_values ex_x ?n ?d3)) = None"
    by (simp add: Get_def NewCache_def)
  have l: "fst (Lookup ex_x (source ?w) (fields_n ?n) (keys ?n) (key_values ex_x ?n ?d))
           = Inr (Some [ex_record ''x''])"
    by (simp add: kv) (simp add: ex_defs)
  have l3: "fst (Lookup ex_x (source ?w3) (fields_n ?n) (keys ?n) (key_values ex_x ?n ?d3))
           = Inr (Some [])"
    by (simp add: kv) (simp add: ex_defs)
  have rec: "has_records (Some [ex_record ''x''])" by (simp add: has_records_def)
  have kp: "has_records (Some [ex_record ''x'']) \<or> cacheMissingKey (NewCache 1000 False)"
    using rec by simp
  have m3: "cacheMissingKey (NewCache 1000 True)" by (simp add: NewCache_def)
  have kp3: "has_records (Some []) \<or> cacheMissingKey (NewCache 1000 True)"
    using m3 by simp
  have t: "(999::int) < 0 + expireTime (NewCache 1000 False)" by (simp add: NewCache_def)
  have t3: "(999::int) < 0 + expireTime (NewCache 1000 True)" by (simp add: NewCache_def)
  have o: "calls ?w = []" "calls ?w3 = []" by (simp_all add: ex_state_def)
  have f: "fields_n ?n = [''name'']" "keys ?n = [''id'']" by (simp_all add: ex_node_def)
  from second_lookup_served_from_cache [OF c h h refl g l kp t, of "[]" "[]"]
    second_lookup_served_from_cache [OF c3 h3 h3 refl g3 l3 kp3 t3, of "[]" "[]"]
    c rec m3
  show ?thesis
    by (simp add: kv k o f source_calls_def)
qed

text \<open>
  The claim C3 without those three conditions fails. A source that fails on the key is
  called by both lookups, since nothing is stored when \<^verbatim>\<open>Lookup\<close> returns an error; of three
  lookups of one key, the second and the third are two lookups in a row during which the
  source is not called at all; and a key without a record in the source, on a node whose
  \<^verbatim>\<open>CacheMissingKey\<close> is false, is asked of the source by both lookups, the empty result
  not being kept.
\<close>

theorem two_lookups_one_source_call_counterexample:
  "\<not> hasNil (key_values ex_x (ex_node INNER_JOIN True) (ex_row (VInt 0))) \<and>
   source_calls (calls (snd (loop ex_x (ex_node INNER_JOIN True)
       [Item 0 (DRow (ex_row (VInt 0))), Item 1 (DRow (ex_row (VInt 0)))]
       (init_state (ex_node INNER_JOIN True) ())))) = 2 \<and>
   \<not> hasNil (key_values ex_x (ex_node INNER_JOIN True) (ex_row (VInt 7))) \<and>
   source_calls (calls (snd (loop ex_x (ex_node INNER_JOIN True)
       [Item 0 (DRow (ex_row (VInt 7)))]
       (init_state (ex_node INNER_JOIN True) ())))) = 1 \<and>
   source_calls (calls (snd (loop ex_x (ex_node INNER_JOIN True)
       [Item 0 (DRow (ex_row (VInt 7))), Item 1 (DRow (ex_row (VInt 7))),
        Item 2 (DRow (ex_row (VInt 7)))]
       (init_state (ex_node INNER_JOIN True) ())))) = 1 \<and>
   \<not> hasNil (key_values ex_x (ex_node INNER_JOIN True) (ex_row (VInt 3))) \<and>
   \<not> CacheMissingKey (conf (ex_node INNER_JOIN True)) \<and>
   fst (Lookup ex_x () [''name''] [''id''] [VInt 3]) = Inr (Some []) \<and>
   source_calls (calls (snd (loop ex_x (ex_node INNER_JOIN True)
       [Item 0 (DRow (ex_row (VInt 3))), Item 1 (DRow (ex_row (VInt 3)))]
       (init_state (ex_node INNER_JOIN True) ())))) = 2"
  by (simp add: ex_defs lookup_defs exec_defs Let_def source_calls_def)




text \<open>
  C10. The cache key is the default format of the whole key vector, and two different key
  vectors can share it: the integer 1 and the string "1" both give \<^verbatim>\<open>[1]\<close>. With caching
  on, the row with the string key is then joined with the record that the source
  returned for the integer key, and the source is not asked about the string key, for
  which it holds another record.
\<close>

theorem cache_key_not_injective:
  "[VInt 1] \<noteq> [VStr ''1''] \<and>
   key_values ex_x (ex_node INNER_JOIN True) (ex_row (VInt 1)) = [VInt 1] \<and>
   key_values ex_x (ex_node INNER_JOIN True) (ex_row (VStr ''1'')) = [VStr ''1''] \<and>
   Sprintf_v [VInt 1] = ''[1]'' \<and> Sprintf_v [VStr ''1''] = ''[1]'' \<and>
   fst (Lookup ex_x () [''name''] [''id''] [VInt 1]) = Inr (Some [ex_record ''one'']) \<and>
   fst (Lookup ex_x () [''name''] [''id''] [VStr ''1'']) = Inr (Some [ex_record ''uno'']) \<and>
   ex_record ''one'' \<noteq> ex_record ''uno'' \<and>
   calls (snd (loop ex_x (ex_node INNER_JOIN True)
       [Item 0 (DRow (ex_row (VInt 1))), Item 1 (DRow (ex_row (VStr ''1'')))]
       (init_state (ex_node INNER_JOIN True) ())))
     = [CacheGet ''[1]'', SourceLookup [''name''] [''id''] [VInt 1],
        CacheSet ''[1]'' (Some [ex_record ''one'']), CacheGet ''[1]''] \<and>
   outs (snd (loop ex_x (ex_node INNER_JOIN True)
       [Item 0 (DRow (ex_row (VInt 1))), Item 1 (DRow (ex_row (VStr ''1'')))]
       (init_state (ex_node INNER_JOIN True) ())))
     = [EmitTuples \<lparr>Content = [[ex_row (VInt 1),
            right_tuple (ex_node INNER_JOIN True) 0 (ex_record ''one'')]],
          WindowRange = None\<rparr>,
        EmitTuples \<lparr>Content = [[ex_row (VStr ''1''),
            right_tuple (ex_node INNER_JOIN True) 1 (ex_record ''one'')]],
          WindowRange = None\<rparr>]"
proof -
  let ?n = "ex_node INNER_JOIN True"
  let ?evs = "[Item 0 (DRow (ex_row (VInt 1))), Item 1 (DRow (ex_row (VStr ''1'')))]"
  have "ex_record ''one'' \<noteq> ex_record ''uno''" by (rule ex_record_neq) simp
  moreover have "[VInt 1] \<noteq> [VStr ''1'']" by simp
  moreover have "key_values ex_x ?n (ex_row (VInt 1)) = [VInt 1]"
    "key_values ex_x ?n (ex_row (VStr ''1'')) = [VStr ''1'']"
    by (simp_all add: ex_defs key_values_def)
  moreover have "Sprintf_v [VInt 1] = ''[1]''" "Sprintf_v [VStr ''1''] = ''[1]''"
    by (simp_all add: Sprintf_v_def decimal.simps)
  moreover have
    "fst (Lookup ex_x () [''name''] [''id''] [VInt 1]) = Inr (Some [ex_record ''one''])"
    "fst (Lookup ex_x () [''name''] [''id''] [VStr ''1'']) = Inr (Some [ex_record ''uno''])"
    by (simp_all add: ex_x_def ex_source_def)
  moreover have "calls (snd (loop ex_x ?n ?evs (init_state ?n ())))
     = [CacheGet ''[1]'', SourceLookup [''name''] [''id''] [VInt 1],
        CacheSet ''[1]'' (Some [ex_record ''one'']), CacheGet ''[1]'']"
    by (simp add: ex_defs lookup_defs exec_defs Let_def)
  moreover have "outs (snd (loop ex_x ?n ?evs (init_state ?n ())))
     = [EmitTuples \<lparr>Content = [[ex_row (VInt 1), right_tuple ?n 0 (ex_record ''one'')]],
          WindowRange = None\<rparr>,
        EmitTuples \<lparr>Content = [[ex_row (VStr ''1''), right_tuple ?n 1 (ex_record ''one'')]],
          WindowRange = None\<rparr>]"
    by (simp add: ex_defs lookup_defs exec_defs Let_def)
  ultimately show ?thesis by blast
qed

end
